theory Spec2Isabelle
  imports Complex_Main
begin

section \<open>JavaScript numbers and values\<close>

text \<open>
  The face matcher of the attendance backend lives in the handler of
  \<^verbatim>\<open>POST /api/recognize\<close> and in its helper \<^verbatim>\<open>euclideanDistance\<close>. The repository
  holds two versions of the file: \<^verbatim>\<open>server.js\<close>, and a second one (headed
  "Corrected & Optimized") that writes the same loops with \<^verbatim>\<open>forEach\<close> and
  \<^verbatim>\<open>reduce\<close> and formats the two numbers of a match with \<^verbatim>\<open>toFixed\<close>. Both are
  embedded here.

  A JavaScript number is an IEEE 754 double. A finite double is modelled by the real
  number it denotes exactly (\<open>Fin\<close>); beside it stand \<^verbatim>\<open>Infinity\<close> (the initial best
  distance and the result of an overflow), its negative, and \<^verbatim>\<open>NaN\<close> (what arithmetic
  on \<^verbatim>\<open>undefined\<close> gives). The two zeros of the format are not distinguished: they
  compare equal and print alike. A descriptor is an array of finite doubles, as JSON
  and the \<^verbatim>\<open>[[Number]]\<close> schema deliver it, given by the exact values of its
  components: the literal \<^verbatim>\<open>0.6\<close> of a request stands for the double nearest to it.
\<close>

datatype number = Fin real | PosInf | NegInf | NaN

type_synonym descriptor = "real list"

text \<open>
  Every arithmetic operation returns the double nearest to the exact result, a tie
  going to the neighbour with the even significand. The doubles around \<open>x\<close> are the
  multiples of \<open>ulp x\<close>: the significand has 53 bits, and below \<open>2^-1022\<close> the spacing
  stays \<open>2^-1074\<close>. A result that rounds to \<open>2^1024\<close> or beyond is an infinity.
\<close>

definition round_even :: "real \<Rightarrow> int" where
  "round_even r =
     (let f = \<lfloor>r\<rfloor> in
      if r - of_int f < 1 / 2 then f
      else if 1 / 2 < r - of_int f then f + 1
      else if even f then f else f + 1)"

definition binade :: "real \<Rightarrow> int" where
  "binade x = \<lfloor>log 2 \<bar>x\<bar>\<rfloor>"

definition ulp :: "real \<Rightarrow> real" where
  "ulp x = 2 powr of_int (max (binade x) (- 1022) - 52)"

definition to_double :: "real \<Rightarrow> number" where
  "to_double x =
     (if x = 0 then Fin 0
      else let y = of_int (round_even (x / ulp x)) * ulp x in
        if 2 ^ 1024 \<le> y then PosInf
        else if y \<le> - (2 ^ 1024) then NegInf
        else Fin y)"

text \<open>\<^verbatim>\<open>x + y\<close> on numbers.\<close>

fun num_add :: "number \<Rightarrow> number \<Rightarrow> number" where
  "num_add NaN _ = NaN"
| "num_add _ NaN = NaN"
| "num_add (Fin x) (Fin y) = to_double (x + y)"
| "num_add PosInf NegInf = NaN"
| "num_add NegInf PosInf = NaN"
| "num_add PosInf _ = PosInf"
| "num_add _ PosInf = PosInf"
| "num_add NegInf _ = NegInf"
| "num_add _ NegInf = NegInf"

text \<open>\<^verbatim>\<open>x - y\<close> on numbers.\<close>

fun num_sub :: "number \<Rightarrow> number \<Rightarrow> number" where
  "num_sub NaN _ = NaN"
| "num_sub _ NaN = NaN"
| "num_sub (Fin x) (Fin y) = to_double (x - y)"
| "num_sub PosInf PosInf = NaN"
| "num_sub NegInf NegInf = NaN"
| "num_sub PosInf _ = PosInf"
| "num_sub _ PosInf = NegInf"
| "num_sub NegInf _ = NegInf"
| "num_sub _ NegInf = PosInf"

text \<open>
  \<^verbatim>\<open>Math.pow(x, 2)\<close>. The language leaves the accuracy of \<^verbatim>\<open>Math.pow\<close> to the
  engine; for the exponent 2 it is taken to be the rounded square.
\<close>

fun num_pow2 :: "number \<Rightarrow> number" where
  "num_pow2 (Fin x) = to_double (x ^ 2)"
| "num_pow2 PosInf = PosInf"
| "num_pow2 NegInf = PosInf"
| "num_pow2 NaN = NaN"

text \<open>\<^verbatim>\<open>Math.sqrt(x)\<close>: \<^verbatim>\<open>NaN\<close> below zero, the rounded square root otherwise.\<close>

fun num_sqrt :: "number \<Rightarrow> number" where
  "num_sqrt (Fin x) = (if x < 0 then NaN else to_double (sqrt x))"
| "num_sqrt PosInf = PosInf"
| "num_sqrt NegInf = NaN"
| "num_sqrt NaN = NaN"

text \<open>\<^verbatim>\<open>x < y\<close>: false as soon as one side is \<^verbatim>\<open>NaN\<close>.\<close>

fun num_lt :: "number \<Rightarrow> number \<Rightarrow> bool" where
  "num_lt NaN _ = False"
| "num_lt _ NaN = False"
| "num_lt (Fin x) (Fin y) = (x < y)"
| "num_lt NegInf NegInf = False"
| "num_lt NegInf _ = True"
| "num_lt _ NegInf = False"
| "num_lt PosInf _ = False"
| "num_lt _ PosInf = True"

text \<open>
  \<^verbatim>\<open>arr[i]\<close> as an operand of \<^verbatim>\<open>-\<close>: the element when the index is in range;
  out of range the read gives \<^verbatim>\<open>undefined\<close>, which the subtraction converts to
  \<^verbatim>\<open>NaN\<close>. No exception is raised.
\<close>

definition elem_at :: "descriptor \<Rightarrow> nat \<Rightarrow> number" where
  "elem_at arr i = (if i < length arr then Fin (arr ! i) else NaN)"

section \<open>The distance helper\<close>

text \<open>
  \<^verbatim>\<open>server.js\<close>:
  \<^verbatim>\<open>
  function euclideanDistance(arr1, arr2) {
    let sum = 0;
    for (let i = 0; i < arr1.length; i++) {
      sum += Math.pow(arr1[i] - arr2[i], 2);
    }
    return Math.sqrt(sum);
  }
  \<close>
  The loop runs over the indices of the first argument only.
\<close>

function distance_loop :: "descriptor \<Rightarrow> descriptor \<Rightarrow> nat \<Rightarrow> number \<Rightarrow> number" where
  "distance_loop arr1 arr2 i sm =
     (if i < length arr1
      then distance_loop arr1 arr2 (i + 1) (num_add sm (num_pow2 (num_sub (elem_at arr1 i) (elem_at arr2 i))))
      else sm)"
  by pat_completeness auto
termination
  by (relation "measure (\<lambda>(arr1, arr2, i, sm). length arr1 - i)") auto

definition euclideanDistance :: "descriptor \<Rightarrow> descriptor \<Rightarrow> number" where
  "euclideanDistance arr1 arr2 = num_sqrt (distance_loop arr1 arr2 0 (Fin 0))"

text \<open>
  The second version:
  \<^verbatim>\<open>
  function euclideanDistance(a, b) {
    return Math.sqrt(a.reduce((sum, val, i) => sum + Math.pow(val - b[i], 2), 0));
  }
  \<close>
  \<^verbatim>\<open>reduce\<close> hands the callback the accumulator, the element and its index.
\<close>

fun reduce_indexed :: "(number \<Rightarrow> real \<Rightarrow> nat \<Rightarrow> number) \<Rightarrow> nat \<Rightarrow> real list \<Rightarrow> number \<Rightarrow> number" where
  "reduce_indexed f i [] acc = acc"
| "reduce_indexed f i (val # rest) acc = reduce_indexed f (i + 1) rest (f acc val i)"

definition euclideanDistance_reduce :: "descriptor \<Rightarrow> descriptor \<Rightarrow> number" where
  "euclideanDistance_reduce a b =
     num_sqrt (reduce_indexed (\<lambda>sum val i. num_add sum (num_pow2 (num_sub (Fin val) (elem_at b i)))) 0 a (Fin 0))"

section \<open>Documents, requests and responses\<close>

text \<open>
  A document of the \<^verbatim>\<open>Student\<close> collection, with the fields the handler reads
  (\<^verbatim>\<open>_id\<close>, \<^verbatim>\<open>name\<close>, \<^verbatim>\<open>rollNo\<close>, \<^verbatim>\<open>email\<close>, \<^verbatim>\<open>faceDescriptors\<close>); the photos and
  the time stamps of the schema are never read by it.
\<close>

record studentDoc =
  doc_id :: string
  doc_name :: string
  doc_rollNo :: string
  doc_email :: string
  faceDescriptors :: "descriptor list"

text \<open>The object \<^verbatim>\<open>{ id, name, rollNo, email }\<close> copied into a match.\<close>

record studentInfo =
  sid :: string
  name :: string
  rollNo :: string
  email :: string

text \<open>
  The two fields \<^verbatim>\<open>confidence\<close> and \<^verbatim>\<open>distance\<close> of a match are numbers in
  \<^verbatim>\<open>server.js\<close> and strings (the results of \<^verbatim>\<open>toFixed\<close>) in the second version.
\<close>

datatype jsval = JNumber number | JString string

record matchResult =
  student :: studentInfo
  confidence :: jsval
  distance :: jsval

text \<open>
  The request body: \<^verbatim>\<open>detectedDescriptors\<close> is \<open>None\<close> when the field is absent
  (\<^verbatim>\<open>undefined\<close>). The field \<^verbatim>\<open>imageData\<close> is destructured and never used.
\<close>

record body =
  detectedDescriptors :: "descriptor list option"

text \<open>
  What the \<^verbatim>\<open>catch\<close> block can receive: the rejection of the database query, with
  its message, or the \<^verbatim>\<open>TypeError\<close> of looping over \<^verbatim>\<open>undefined\<close>.
\<close>

datatype error = DbError string | TypeError

text \<open>\<^verbatim>\<open>res.json({ matches })\<close>, or \<^verbatim>\<open>res.status(500).json({ error: error.message })\<close>.\<close>

datatype response = Json200 "matchResult list" | Json500 error

text \<open>
  \<^verbatim>\<open>const threshold = 0.6\<close>, a constant of the handler in both versions: the double
  nearest to \<open>6 / 10\<close>.
\<close>

definition threshold :: number where
  "threshold = to_double (6 / 10)"

text \<open>
  \<^verbatim>\<open>Student.find({ faceDescriptors: { $exists: true, $ne: [] } })\<close> on a collection:
  the documents whose descriptor array is not empty, in the collection's order.
\<close>

definition find_with_descriptors :: "studentDoc list \<Rightarrow> studentDoc list" where
  "find_with_descriptors collection = filter (\<lambda>s. faceDescriptors s \<noteq> []) collection"

section \<open>The handler of server.js\<close>

text \<open>
  \<^verbatim>\<open>
  for (const descriptor of detectedDescriptors) {
    let bestMatch = null;
    let bestDistance = Infinity;
    const threshold = 0.6;
    for (const student of students) {
      for (const storedDescriptor of student.faceDescriptors) {
        const distance = euclideanDistance(descriptor, storedDescriptor);
        if (distance < threshold && distance < bestDistance) {
          bestDistance = distance;
          bestMatch = { student: { id: student._id, name: student.name,
                                   rollNo: student.rollNo, email: student.email },
                        confidence: 1 - distance, distance };
        }
      }
    }
    if (bestMatch) { matches.push(bestMatch); }
  }
  \<close>
  The three loops are three recursions over the arrays; the two inner ones thread the
  pair \<open>(bestMatch, bestDistance)\<close>, the outer one threads \<open>matches\<close>.
\<close>

type_synonym best = "matchResult option \<times> number"

fun descriptors_loop :: "descriptor \<Rightarrow> studentDoc \<Rightarrow> descriptor list \<Rightarrow> best \<Rightarrow> best" where
  "descriptors_loop descriptor s [] (bestMatch, bestDistance) = (bestMatch, bestDistance)"
| "descriptors_loop descriptor s (storedDescriptor # rest) (bestMatch, bestDistance) =
     (let dst = euclideanDistance descriptor storedDescriptor in
      if num_lt dst threshold \<and> num_lt dst bestDistance
      then descriptors_loop descriptor s rest
             (Some \<lparr>student = \<lparr>sid = doc_id s, name = doc_name s,
                                rollNo = doc_rollNo s, email = doc_email s\<rparr>,
                    confidence = JNumber (num_sub (Fin 1) dst),
                    distance = JNumber dst\<rparr>,
              dst)
      else descriptors_loop descriptor s rest (bestMatch, bestDistance))"

fun students_loop :: "descriptor \<Rightarrow> studentDoc list \<Rightarrow> best \<Rightarrow> best" where
  "students_loop descriptor [] b = b"
| "students_loop descriptor (s # rest) b =
     students_loop descriptor rest (descriptors_loop descriptor s (faceDescriptors s) b)"

fun probes_loop :: "studentDoc list \<Rightarrow> descriptor list \<Rightarrow> matchResult list \<Rightarrow> matchResult list" where
  "probes_loop students [] matches = matches"
| "probes_loop students (descriptor # rest) matches =
     (case fst (students_loop descriptor students (None, PosInf)) of
        Some bestMatch \<Rightarrow> probes_loop students rest (matches @ [bestMatch])
      | None \<Rightarrow> probes_loop students rest matches)"

text \<open>
  The handler inside its \<^verbatim>\<open>try\<close>: the query (\<open>Inl\<close> when it rejects), then the loop
  over the probes, which throws when \<^verbatim>\<open>detectedDescriptors\<close> is \<^verbatim>\<open>undefined\<close>.
\<close>

definition recognize :: "string + studentDoc list \<Rightarrow> body \<Rightarrow> response" where
  "recognize db b =
     (case db of
        Inl message \<Rightarrow> Json500 (DbError message)
      | Inr collection \<Rightarrow>
          (case detectedDescriptors b of
             None \<Rightarrow> Json500 TypeError
           | Some probes \<Rightarrow> Json200 (probes_loop (find_with_descriptors collection) probes [])))"

section \<open>The second version of the handler\<close>

text \<open>
  \<^verbatim>\<open>x.toFixed(f)\<close> after the language standard: a number that is not finite prints as
  its name; otherwise the sign, then the integer \<open>n\<close> with \<open>n / 10^f\<close> closest to the
  absolute value (the larger one of two), written in decimal, padded with zeros to
  \<open>f + 1\<close> digits, with a point before the last \<open>f\<close> digits. The digits come from
  the exact value of the double. The standard switches to exponent notation from
  \<open>10^21\<close> on; that branch is not modelled, the handler applies \<^verbatim>\<open>toFixed\<close> to a
  distance below the threshold and to one minus it.
\<close>

definition digit_char :: "nat \<Rightarrow> char" where
  "digit_char d = ''0123456789'' ! d"

fun digits_of :: "nat \<Rightarrow> string" where
  "digits_of n = (if n < 10 then [digit_char n] else digits_of (n div 10) @ [digit_char (n mod 10)])"

definition fixed_notation :: "nat \<Rightarrow> real \<Rightarrow> string" where
  "fixed_notation f x =
     (let n = nat \<lfloor>x * 10 ^ f + 1 / 2\<rfloor>;
          m = digits_of n;
          m = (if length m \<le> f then replicate (f + 1 - length m) (CHR ''0'') @ m else m)
      in if f = 0 then m else take (length m - f) m @ ''.'' @ drop (length m - f) m)"

fun toFixed :: "nat \<Rightarrow> number \<Rightarrow> string" where
  "toFixed f NaN = ''NaN''"
| "toFixed f PosInf = ''Infinity''"
| "toFixed f NegInf = ''-Infinity''"
| "toFixed f (Fin x) = (if x < 0 then ''-'' @ fixed_notation f (- x) else fixed_notation f x)"

text \<open>
  \<^verbatim>\<open>
  detectedDescriptors.forEach(descriptor => {
    let bestMatch = null;
    let bestDistance = Infinity;
    students.forEach(student => {
      student.faceDescriptors.forEach(storedDescriptor => {
        const distance = euclideanDistance(descriptor, storedDescriptor);
        if (distance < threshold && distance < bestDistance) {
          bestDistance = distance;
          bestMatch = {
            student: { id: student._id, name: student.name, rollNo: student.rollNo, email: student.email },
            confidence: (1 - distance).toFixed(2),
            distance: distance.toFixed(3)
          };
        }
      });
    });
    if (bestMatch) matches.push(bestMatch);
  });
  \<close>
  Each \<^verbatim>\<open>forEach\<close> is a \<open>fold\<close> of its callback over the array, threading the
  variables the callback assigns.
\<close>

definition stored_callback :: "descriptor \<Rightarrow> studentDoc \<Rightarrow> descriptor \<Rightarrow> best \<Rightarrow> best" where
  "stored_callback descriptor s storedDescriptor b =
     (let dst = euclideanDistance_reduce descriptor storedDescriptor in
      if num_lt dst threshold \<and> num_lt dst (snd b)
      then (Some \<lparr>student = \<lparr>sid = doc_id s, name = doc_name s,
                               rollNo = doc_rollNo s, email = doc_email s\<rparr>,
                   confidence = JString (toFixed 2 (num_sub (Fin 1) dst)),
                   distance = JString (toFixed 3 dst)\<rparr>,
            dst)
      else b)"

definition student_callback :: "descriptor \<Rightarrow> studentDoc \<Rightarrow> best \<Rightarrow> best" where
  "student_callback descriptor s b = fold (stored_callback descriptor s) (faceDescriptors s) b"

definition probe_callback :: "studentDoc list \<Rightarrow> descriptor \<Rightarrow> matchResult list \<Rightarrow> matchResult list" where
  "probe_callback students descriptor matches =
     (case fst (fold (student_callback descriptor) students (None, PosInf)) of
        Some bestMatch \<Rightarrow> matches @ [bestMatch]
      | None \<Rightarrow> matches)"

definition recognize_optimized :: "string + studentDoc list \<Rightarrow> body \<Rightarrow> response" where
  "recognize_optimized db b =
     (case db of
        Inl message \<Rightarrow> Json500 (DbError message)
      | Inr collection \<Rightarrow>
          (case detectedDescriptors b of
             None \<Rightarrow> Json500 TypeError
           | Some probes \<Rightarrow>
               Json200 (fold (probe_callback (find_with_descriptors collection)) probes [])))"

section \<open>Notions used in the statements\<close>

text \<open>
  The (student, stored descriptor) pairs of a gallery in the order in which the two
  inner loops visit them: students in array order, and the descriptors of each student
  in array order.
\<close>

definition pairs :: "studentDoc list \<Rightarrow> (studentDoc \<times> descriptor) list" where
  "pairs students = concat (map (\<lambda>s. map (Pair s) (faceDescriptors s)) students)"

text \<open>The public attributes of a document, as both versions copy them.\<close>

definition student_info :: "studentDoc \<Rightarrow> studentInfo" where
  "student_info s = \<lparr>sid = doc_id s, name = doc_name s, rollNo = doc_rollNo s, email = doc_email s\<rparr>"

text \<open>
  One round of the innermost loop body over an arbitrary candidate type: \<open>dst\<close> is the
  candidate's distance and \<open>mk\<close> the object built on a hit.
\<close>

definition scan_step :: "('a \<Rightarrow> number) \<Rightarrow> ('a \<Rightarrow> 'm) \<Rightarrow> 'a \<Rightarrow> 'm option \<times> number \<Rightarrow> 'm option \<times> number" where
  "scan_step dst mk x b =
     (if num_lt (dst x) threshold \<and> num_lt (dst x) (snd b) then (Some (mk x), dst x) else b)"

text \<open>
  Position \<open>k\<close> holds the first minimum of \<open>dst\<close> over \<open>xs\<close>: no candidate is strictly
  closer, and no earlier candidate is as close.
\<close>

definition first_minimum :: "('a \<Rightarrow> number) \<Rightarrow> 'a list \<Rightarrow> nat \<Rightarrow> bool" where
  "first_minimum dst xs k \<longleftrightarrow>
     k < length xs \<and> (\<forall>y\<in>set xs. \<not> num_lt (dst y) (dst (xs ! k))) \<and>
     (\<forall>y\<in>set (take k xs). dst y \<noteq> dst (xs ! k))"

text \<open>
  The distance of a probe to a pair, and the object each version builds for a pair that
  becomes the best match.
\<close>

definition pair_distance :: "descriptor \<Rightarrow> studentDoc \<times> descriptor \<Rightarrow> number" where
  "pair_distance descriptor x = euclideanDistance descriptor (snd x)"

definition match_object :: "descriptor \<Rightarrow> studentDoc \<times> descriptor \<Rightarrow> matchResult" where
  "match_object descriptor x =
     \<lparr>student = student_info (fst x),
      confidence = JNumber (num_sub (Fin 1) (pair_distance descriptor x)),
      distance = JNumber (pair_distance descriptor x)\<rparr>"

definition match_object_optimized :: "descriptor \<Rightarrow> studentDoc \<times> descriptor \<Rightarrow> matchResult" where
  "match_object_optimized descriptor x =
     \<lparr>student = student_info (fst x),
      confidence = JString (toFixed 2 (num_sub (Fin 1) (pair_distance descriptor x))),
      distance = JString (toFixed 3 (pair_distance descriptor x))\<rparr>"

text \<open>The values of \<^verbatim>\<open>bestMatch\<close> and \<^verbatim>\<open>bestDistance\<close> when the scan for one probe ends.\<close>

definition bestMatch_of :: "studentDoc list \<Rightarrow> descriptor \<Rightarrow> matchResult option" where
  "bestMatch_of students descriptor = fst (students_loop descriptor students (None, PosInf))"

definition bestDistance_of :: "studentDoc list \<Rightarrow> descriptor \<Rightarrow> number" where
  "bestDistance_of students descriptor = snd (students_loop descriptor students (None, PosInf))"

definition bestMatch_of_optimized :: "studentDoc list \<Rightarrow> descriptor \<Rightarrow> matchResult option" where
  "bestMatch_of_optimized students descriptor =
     fst (fold (student_callback descriptor) students (None, PosInf))"

definition bestDistance_of_optimized :: "studentDoc list \<Rightarrow> descriptor \<Rightarrow> number" where
  "bestDistance_of_optimized students descriptor =
     snd (fold (student_callback descriptor) students (None, PosInf))"

text \<open>
  The sum \<open>\<Sum> (a_i - b_i)^2\<close> of the specification's formula over the first \<open>n\<close>
  components, evaluated in the arithmetic of the program: the squared differences are
  added from the left, starting at 0, and every operation rounds.
\<close>

primrec rounded_sum_of_squares :: "descriptor \<Rightarrow> descriptor \<Rightarrow> nat \<Rightarrow> number" where
  "rounded_sum_of_squares a b 0 = Fin 0"
| "rounded_sum_of_squares a b (Suc n) =
     num_add (rounded_sum_of_squares a b n) (num_pow2 (num_sub (Fin (a ! n)) (Fin (b ! n))))"

text \<open>The negative of a number.\<close>

fun num_neg :: "number \<Rightarrow> number" where
  "num_neg (Fin x) = Fin (- x)"
| "num_neg PosInf = NegInf"
| "num_neg NegInf = PosInf"
| "num_neg NaN = NaN"

text \<open>A document for the examples: all its attributes are its key.\<close>

definition example_student :: "string \<Rightarrow> descriptor list \<Rightarrow> studentDoc" where
  "example_student key ds =
     \<lparr>doc_id = key, doc_name = key, doc_rollNo = key, doc_email = key, faceDescriptors = ds\<rparr>"

section \<open>Facts about rounding\<close>

text \<open>
  Rounding keeps zero, commutes with the sign, keeps a non-negative value non-negative,
  keeps every value that has at most 53 significant bits within the exponent range,
  and sends everything from \<open>2^1024\<close> on to \<^verbatim>\<open>Infinity\<close>. The examples below use
  inputs that are doubles, so that each stands for itself.
\<close>

lemma to_double_0: "to_double 0 = Fin 0"
  by (simp add: to_double_def)

lemma round_even_nearest:
  assumes "\<bar>r - of_int n\<bar> < 1 / 2"
  shows "round_even r = n"
proof (cases "of_int n \<le> r")
  case True
  then have "\<lfloor>r\<rfloor> = n" using assms by (intro floor_unique) auto
  then show ?thesis using assms True by (simp add: round_even_def)
next
  case False
  then have f: "\<lfloor>r\<rfloor> = n - 1" using assms by (intro floor_unique) auto
  have "1 / 2 < r - of_int (n - 1)" using assms False by auto
  then show ?thesis unfolding round_even_def f Let_def by auto
qed

lemma round_even_of_int: "round_even (of_int n) = n"
  by (rule round_even_nearest) simp

lemma round_even_uminus: "round_even (- r) = - round_even r"
proof (cases "r = of_int \<lfloor>r\<rfloor>")
  case True
  define n where "n = \<lfloor>r\<rfloor>"
  have "r = of_int n" using True by (simp add: n_def)
  then have "round_even r = n" "round_even (- r) = - n"
    using round_even_of_int [of n] round_even_of_int [of "- n"] by simp_all
  then show ?thesis by simp
next
  case False
  define f where "f = \<lfloor>r\<rfloor>"
  have "of_int f \<le> r" "of_int f \<noteq> r" using False by (auto simp: f_def)
  then have lo: "of_int f < r" by linarith
  have hi: "r < of_int f + 1" by (simp add: f_def)
  have g: "\<lfloor>- r\<rfloor> = - f - 1"
    using lo hi by (intro floor_unique) auto
  consider "r - of_int f < 1 / 2" | "1 / 2 < r - of_int f" | "r - of_int f = 1 / 2" by linarith
  then show ?thesis
  proof cases
    case 1
    then have "round_even r = f" by (simp add: round_even_def f_def)
    moreover have "1 / 2 < - r - of_int (- f - 1)" using 1 by simp
    then have "round_even (- r) = - f" unfolding round_even_def g Let_def by auto
    ultimately show ?thesis by simp
  next
    case 2
    then have "round_even r = f + 1" unfolding round_even_def f_def [symmetric] Let_def by auto
    moreover have "- r - of_int (- f - 1) < 1 / 2" using 2 by simp
    then have "round_even (- r) = - f - 1" unfolding round_even_def g Let_def by auto
    ultimately show ?thesis by simp
  next
    case 3
    then have a: "round_even r = (if even f then f else f + 1)"
      unfolding round_even_def f_def [symmetric] Let_def by auto
    have "- r - of_int (- f - 1) = 1 / 2" using 3 by simp
    then have b: "round_even (- r) = (if even (- f - 1) then - f - 1 else - f - 1 + 1)"
      unfolding round_even_def g Let_def by auto
    show ?thesis unfolding a b by auto
  qed
qed

lemma ulp_uminus: "ulp (- x) = ulp x"
  by (simp add: ulp_def binade_def)


lemma to_double_uminus: "to_double (- x) = num_neg (to_double x)"
proof (cases "x = 0")
  case True
  then show ?thesis by (simp add: to_double_0)
next
  case False
  define y where "y = of_int (round_even (x / ulp x)) * ulp x"
  have "of_int (round_even (- x / ulp (- x))) * ulp (- x) = - y"
    by (simp add: y_def ulp_uminus round_even_uminus)
  then have a: "to_double (- x) =
      (if 2 ^ 1024 \<le> - y then PosInf else if - y \<le> - (2 ^ 1024) then NegInf else Fin (- y))"
    using False by (simp add: to_double_def Let_def)
  have b: "to_double x =
      (if 2 ^ 1024 \<le> y then PosInf else if y \<le> - (2 ^ 1024) then NegInf else Fin y)"
    using False by (simp add: to_double_def Let_def y_def)
  show ?thesis unfolding a b by auto
qed



lemma binade_eqI:
  assumes "2 powr of_int e \<le> \<bar>x\<bar>" "\<bar>x\<bar> < 2 powr of_int (e + 1)"
  shows "binade x = e"
proof -
  have "0 < \<bar>x\<bar>" using assms(1) by (smt (verit) powr_gt_zero)
  then show ?thesis
    unfolding binade_def using assms by (simp add: floor_log_eq_powr_iff)
qed

lemma ulp_eqI:
  assumes "2 powr of_int e \<le> \<bar>x\<bar>" "\<bar>x\<bar> < 2 powr of_int (e + 1)" "- 1022 \<le> e"
  shows "ulp x = 2 powr of_int (e - 52)"
proof -
  have "max (binade x) (- 1022) = e"
    using binade_eqI [OF assms(1,2)] assms(3) by (simp add: max_def)
  then show ?thesis by (simp only: ulp_def)
qed

lemma to_double_rounded:
  assumes "x \<noteq> 0" "ulp x = q" "round_even (x / q) = n"
  shows "to_double x =
    (if 2 ^ 1024 \<le> of_int n * q then PosInf
     else if of_int n * q \<le> - (2 ^ 1024) then NegInf else Fin (of_int n * q))"
  using assms by (simp only: to_double_def Let_def if_False)

lemma to_double_eval:
  assumes "2 powr of_int e \<le> \<bar>x\<bar>" "\<bar>x\<bar> < 2 powr of_int (e + 1)" "- 1022 \<le> e"
    and "\<bar>x / 2 powr of_int (e - 52) - of_int n\<bar> < 1 / 2"
    and "\<bar>of_int n * 2 powr of_int (e - 52)\<bar> < (2 :: real) ^ 1024"
  shows "to_double x = Fin (of_int n * 2 powr of_int (e - 52))"
proof -
  define q :: real where "q = 2 powr of_int (e - 52)"
  have nz: "x \<noteq> 0" using assms(1) by (smt (verit) powr_gt_zero)
  have u: "ulp x = q"
    unfolding q_def using assms(1-3) by (rule ulp_eqI)
  have r: "round_even (x / q) = n"
    using assms(4) unfolding q_def by (rule round_even_nearest)
  have "\<not> 2 ^ 1024 \<le> of_int n * q" "\<not> of_int n * q \<le> - (2 ^ 1024)"
    using assms(5) unfolding q_def [symmetric] by linarith+
  then show ?thesis
    unfolding q_def [symmetric] by (simp only: to_double_rounded [OF nz u r] if_False)
qed

lemma to_double_exact:
  assumes x: "x = of_int m * 2 powr of_int k"
    and m: "\<bar>m\<bar> < 2 ^ 53" and k: "- 1074 \<le> k" "k \<le> 971"
  shows "to_double x = Fin x"
proof (cases "m = 0")
  case True
  then show ?thesis using x by (simp add: to_double_0)
next
  case False
  have nz: "x \<noteq> 0" using False x by simp
  then have pos: "0 < \<bar>x\<bar>" by simp
  define e where "e = max (binade x) (- 1022) - 52"
  have u: "ulp x = 2 powr of_int e" by (simp only: ulp_def e_def)
  have "2 powr of_int (binade x) \<le> \<bar>x\<bar>"
    using pos floor_log_eq_powr_iff [of "\<bar>x\<bar>" 2 "binade x"] by (simp add: binade_def)
  also have "\<bar>x\<bar> = of_int \<bar>m\<bar> * 2 powr of_int k"
    using x by (simp add: abs_mult)
  also have "\<dots> < 2 ^ 53 * 2 powr of_int k"
  proof -
    have "real_of_int \<bar>m\<bar> < real_of_int (2 ^ 53)" using m by (simp only: of_int_less_iff)
    then show ?thesis by simp
  qed
  also have "\<dots> = 2 powr of_int (53 + k)"
    by (simp add: powr_add)
  finally have "real_of_int (binade x) < real_of_int (53 + k)" by simp
  then have "binade x < 53 + k" by (simp only: of_int_less_iff)
  then have le: "e \<le> k" using k by (simp add: e_def)
  define j where "j = nat (k - e)"
  have kj: "k = e + int j" using le by (simp add: j_def)
  have "2 powr real_of_int k = 2 powr real_of_int e * 2 ^ j"
    unfolding kj by (simp add: powr_add powr_realpow)
  then have xe: "x = of_int (m * 2 ^ j) * 2 powr of_int e"
    using x by simp
  have "x / 2 powr of_int e = of_int (m * 2 ^ j)"
    unfolding xe by simp
  then have r: "round_even (x / 2 powr of_int e) = m * 2 ^ j"
    by (simp only: round_even_of_int)
  have "\<bar>x\<bar> < 2 ^ 53 * 2 powr of_int k"
    using \<open>\<bar>x\<bar> = of_int \<bar>m\<bar> * 2 powr of_int k\<close> \<open>of_int \<bar>m\<bar> * 2 powr of_int k < 2 ^ 53 * 2 powr of_int k\<close>
    by simp
  also have "2 ^ 53 * 2 powr real_of_int k \<le> 2 ^ 53 * 2 powr real_of_int 971"
  proof -
    have "(2 :: real) powr real_of_int k \<le> 2 powr real_of_int 971"
      using k by (intro powr_mono) simp_all
    then show ?thesis by (rule mult_left_mono) simp
  qed
  also have "\<dots> = 2 ^ 1024" by simp
  finally have small: "\<bar>x\<bar> < 2 ^ 1024" .
  define y :: real where "y = of_int (m * 2 ^ j) * 2 powr of_int e"
  have xy: "x = y" using xe by (simp only: y_def)
  have "\<not> 2 ^ 1024 \<le> y" "\<not> y \<le> - (2 ^ 1024)"
    using small unfolding xy by linarith+
  then have "to_double x = Fin y"
    unfolding y_def by (simp only: to_double_rounded [OF nz u r] if_False)
  then show ?thesis by (simp only: xy)
qed

lemma threshold_eq: "threshold = Fin (5404319552844595 / 2 ^ 53)"
  unfolding threshold_def
  using to_double_eval [of "- 1" "6 / 10" "5404319552844595"]
  by (simp add: powr_neg_numeral powr_neg_one)

lemma round_even_ge_floor: "\<lfloor>r\<rfloor> \<le> round_even r"
  by (simp add: round_even_def Let_def)

lemma to_double_huge:
  assumes "2 ^ 1024 \<le> x"
  shows "to_double x = PosInf"
proof -
  have p: "(2 :: real) powr of_int 1024 = 2 ^ 1024"
    by (subst powr_int) simp_all
  have pos: "0 < x" using assms by (smt (verit) zero_less_power)
  then have nz: "x \<noteq> 0" and ax: "\<bar>x\<bar> = x" by simp_all
  define b where "b = binade x"
  have "real_of_int 1024 \<le> log 2 x"
    using assms pos unfolding p [symmetric] by (simp only: le_log_iff [of 2 x] semiring_norm)
  then have b: "1024 \<le> b"
    unfolding b_def binade_def ax by (simp only: le_floor_iff)
  have lo: "2 powr of_int b \<le> x"
    using pos floor_log_eq_powr_iff [of x 2 b] by (simp add: b_def binade_def)
  define q :: real where "q = 2 powr of_int (b - 52)"
  have q: "0 < q" by (simp add: q_def)
  have u: "ulp x = q"
    using b by (simp add: ulp_def q_def b_def max_def)
  have "2 powr of_int b = 2 ^ 52 * q"
  proof -
    have "real_of_int b = 52 + real_of_int (b - 52)" by simp
    then have "(2 :: real) powr of_int b = 2 powr 52 * 2 powr of_int (b - 52)"
      by (simp only: powr_add)
    then show ?thesis by (simp add: q_def)
  qed
  then have "2 ^ 52 * q \<le> x" using lo by simp
  then have "2 ^ 52 \<le> x / q" using q by (simp add: pos_le_divide_eq)
  then have "real_of_int (2 ^ 52) \<le> x / q" by simp
  then have "2 ^ 52 \<le> \<lfloor>x / q\<rfloor>" by (simp only: le_floor_iff)
  then have "2 ^ 52 \<le> round_even (x / q)"
    using round_even_ge_floor [of "x / q"] by linarith
  then have "real_of_int (2 ^ 52) \<le> real_of_int (round_even (x / q))"
    by (simp only: of_int_le_iff)
  then have "2 ^ 52 * q \<le> real_of_int (round_even (x / q)) * q"
    using q by simp
  moreover have "(2 :: real) ^ 1024 \<le> 2 powr of_int b"
    unfolding p [symmetric] using b by (intro powr_mono) simp_all
  ultimately have "2 ^ 1024 \<le> real_of_int (round_even (x / q)) * q"
    using \<open>2 powr of_int b = 2 ^ 52 * q\<close> by linarith
  then show ?thesis
    by (simp only: to_double_rounded [OF nz u refl] if_True)
qed

section \<open>Facts about the distance helper\<close>

lemma num_add_NaN_right: "num_add x NaN = NaN"
  by (cases x) simp_all

lemma num_lt_NaN_right: "\<not> num_lt x NaN"
  by (cases x) simp_all

lemma num_pow2_neg: "num_pow2 (num_neg z) = num_pow2 z"
  by (cases z) simp_all

lemma num_sub_swap: "num_sub (Fin x) (Fin y) = num_neg (num_sub (Fin y) (Fin x))"
  using to_double_uminus [of "y - x"] by simp

lemma squared_difference_swap:
  "num_pow2 (num_sub (Fin x) (Fin y)) = num_pow2 (num_sub (Fin y) (Fin x))"
  using num_pow2_neg [of "num_sub (Fin y) (Fin x)"] by (simp only: num_sub_swap [of x y])

lemma squared_difference_self: "num_pow2 (num_sub (Fin x) (Fin x)) = Fin 0"
  by (simp add: to_double_0)


lemma distance_loop_NaN: "distance_loop arr1 arr2 i NaN = NaN"
  by (induction arr1 arr2 i NaN rule: distance_loop.induct) simp

lemma distance_loop_rounded:
  "i \<le> length arr1 \<Longrightarrow> length arr1 \<le> length arr2 \<Longrightarrow> sm = rounded_sum_of_squares arr1 arr2 i \<Longrightarrow>
   distance_loop arr1 arr2 i sm = rounded_sum_of_squares arr1 arr2 (length arr1)"
proof (induction arr1 arr2 i sm rule: distance_loop.induct)
  case (1 arr1 arr2 i sm)
  show ?case
  proof (cases "i < length arr1")
    case True
    then have step: "num_add sm (num_pow2 (num_sub (elem_at arr1 i) (elem_at arr2 i)))
        = rounded_sum_of_squares arr1 arr2 (i + 1)"
      using "1.prems" by (simp add: elem_at_def)
    have "distance_loop arr1 arr2 i sm =
        distance_loop arr1 arr2 (i + 1) (num_add sm (num_pow2 (num_sub (elem_at arr1 i) (elem_at arr2 i))))"
      using True by (simp add: distance_loop.simps [of arr1 arr2 i sm])
    also have "\<dots> = rounded_sum_of_squares arr1 arr2 (length arr1)"
      using True "1.prems"(2) step by (intro "1.IH") simp_all
    finally show ?thesis .
  next
    case False
    then have "i = length arr1" using "1.prems" by simp
    then show ?thesis using "1.prems" by (simp add: distance_loop.simps [of arr1 arr2 "length arr1" sm])
  qed
qed

lemma distance_loop_out_of_range:
  "length arr2 < length arr1 \<Longrightarrow> i \<le> length arr2 \<Longrightarrow> distance_loop arr1 arr2 i sm = NaN"
proof (induction arr1 arr2 i sm rule: distance_loop.induct)
  case (1 arr1 arr2 i sm)
  have lt: "i < length arr1" using "1.prems" by simp
  show ?case
  proof (cases "i = length arr2")
    case True
    then have "num_add sm (num_pow2 (num_sub (elem_at arr1 i) (elem_at arr2 i))) = NaN"
      using lt by (simp add: elem_at_def num_add_NaN_right)
    then show ?thesis
      using lt by (simp add: distance_loop_NaN distance_loop.simps [of arr1 arr2 i sm] del: distance_loop.simps)
  next
    case False
    then have "i + 1 \<le> length arr2" using "1.prems" by simp
    then show ?thesis using "1.IH" [OF lt "1.prems"(1)] lt by simp
  qed
qed

lemma distance_loop_reduce:
  "i \<le> length a \<Longrightarrow>
   distance_loop a b i sm =
   reduce_indexed (\<lambda>sum val i. num_add sum (num_pow2 (num_sub (Fin val) (elem_at b i)))) i (drop i a) sm"
proof (induction a b i sm rule: distance_loop.induct)
  case (1 arr1 arr2 i sm)
  show ?case
  proof (cases "i < length arr1")
    case True
    have d: "drop i arr1 = arr1 ! i # drop (i + 1) arr1"
      using True by (simp add: Cons_nth_drop_Suc)
    have e: "elem_at arr1 i = Fin (arr1 ! i)" using True by (simp add: elem_at_def)
    show ?thesis using "1.IH" [OF True] True d e by simp
  next
    case False
    then show ?thesis using "1.prems" by simp
  qed
qed

declare distance_loop.simps [simp del]

lemma euclideanDistance_reduce_eq: "euclideanDistance_reduce a b = euclideanDistance a b"
  using distance_loop_reduce [of 0 a b "Fin 0"]
  by (simp add: euclideanDistance_reduce_def euclideanDistance_def)

lemma euclideanDistance_rounded:
  "length arr1 \<le> length arr2 \<Longrightarrow>
   euclideanDistance arr1 arr2 = num_sqrt (rounded_sum_of_squares arr1 arr2 (length arr1))"
  using distance_loop_rounded [of 0 arr1 arr2 "Fin 0"] by (simp add: euclideanDistance_def)

lemma euclideanDistance_out_of_range:
  "length arr2 < length arr1 \<Longrightarrow> euclideanDistance arr1 arr2 = NaN"
  using distance_loop_out_of_range [of arr2 arr1 0 "Fin 0"]
  by (simp add: euclideanDistance_def)


lemma rounded_sum_of_squares_swap:
  "rounded_sum_of_squares a b n = rounded_sum_of_squares b a n"
proof (induction n)
  case 0
  then show ?case by simp
next
  case (Suc n)
  then show ?case
    using squared_difference_swap [of "a ! n" "b ! n"] by simp
qed

lemma rounded_sum_of_squares_self: "rounded_sum_of_squares a a n = Fin 0"
  by (induction n) (simp_all add: squared_difference_self to_double_0)

lemma rounded_sum_of_squares_take:
  "n \<le> m \<Longrightarrow> rounded_sum_of_squares a (take m b) n = rounded_sum_of_squares a b n"
  by (induction n) simp_all

lemma euclideanDistance_take:
  assumes "length p \<le> length d"
  shows "euclideanDistance p (take (length p) d) = euclideanDistance p d"
  using assms by (simp add: euclideanDistance_rounded rounded_sum_of_squares_take)

lemma rounded_sum_of_squares_exact:
  assumes "\<forall>i<n. to_double (a ! i - b ! i) = Fin (a ! i - b ! i) \<and>
      to_double ((a ! i - b ! i) ^ 2) = Fin ((a ! i - b ! i) ^ 2) \<and>
      to_double (\<Sum>k\<le>i. (a ! k - b ! k) ^ 2) = Fin (\<Sum>k\<le>i. (a ! k - b ! k) ^ 2)"
  shows "rounded_sum_of_squares a b n = Fin (\<Sum>k<n. (a ! k - b ! k) ^ 2)"
  using assms
proof (induction n)
  case 0
  then show ?case by simp
next
  case (Suc n)
  then have IH: "rounded_sum_of_squares a b n = Fin (\<Sum>k<n. (a ! k - b ! k) ^ 2)" by simp
  have here: "to_double (a ! n - b ! n) = Fin (a ! n - b ! n)"
    "to_double ((a ! n - b ! n) ^ 2) = Fin ((a ! n - b ! n) ^ 2)"
    "to_double (\<Sum>k\<le>n. (a ! k - b ! k) ^ 2) = Fin (\<Sum>k\<le>n. (a ! k - b ! k) ^ 2)"
    using Suc.prems by simp_all
  have "(\<Sum>k<n. (a ! k - b ! k) ^ 2) + (a ! n - b ! n) ^ 2 = (\<Sum>k\<le>n. (a ! k - b ! k) ^ 2)"
    by (simp add: lessThan_Suc_atMost [symmetric])
  then show ?case
    using here by (simp add: IH lessThan_Suc_atMost)
qed

section \<open>Facts about the scan\<close>

lemma num_lt_trans: "num_lt a b \<Longrightarrow> num_lt b c \<Longrightarrow> num_lt a c"
  by (cases a; cases b; cases c) simp_all

lemma num_lt_irrefl: "\<not> num_lt a a"
  by (cases a) simp_all

lemma num_lt_threshold_PosInf: "num_lt a threshold \<Longrightarrow> num_lt a PosInf"
  by (cases a) (simp_all add: threshold_eq)

text \<open>
  The invariant of the scan: either nothing was below the threshold so far, or the
  state holds the first minimum of the candidates seen, which is below the threshold.
\<close>

lemma scan_fold:
  "fold (scan_step dst mk) xs (None, PosInf) = (bm, bd) \<Longrightarrow>
   (bm = None \<and> bd = PosInf \<and> (\<forall>y\<in>set xs. \<not> num_lt (dst y) threshold)) \<or>
   (\<exists>k. bm = Some (mk (xs ! k)) \<and> bd = dst (xs ! k) \<and> num_lt bd threshold \<and>
        first_minimum dst xs k)"
proof (induction xs arbitrary: bm bd rule: rev_induct)
  case Nil
  then show ?case by simp
next
  case (snoc x xs)
  obtain bm0 bd0 where prev: "fold (scan_step dst mk) xs (None, PosInf) = (bm0, bd0)"
    by (cases "fold (scan_step dst mk) xs (None, PosInf)")
  have now: "(bm, bd) = scan_step dst mk x (bm0, bd0)"
    using snoc.prems prev by simp
  note IH = snoc.IH [OF prev]
  show ?case
  proof (cases "num_lt (dst x) threshold \<and> num_lt (dst x) bd0")
    case True
    then have upd: "bm = Some (mk x)" "bd = dst x"
      using now by (simp_all add: scan_step_def)
    have closer: "\<not> num_lt (dst y) (dst x)" and differ: "dst y \<noteq> dst x" if "y \<in> set xs" for y
    proof -
      from IH have nl: "\<not> num_lt (dst y) threshold \<or> \<not> num_lt (dst y) bd0"
        using that by (auto simp: first_minimum_def)
      then show "\<not> num_lt (dst y) (dst x)"
        using True num_lt_trans by blast
      from nl show "dst y \<noteq> dst x"
        using True by auto
    qed
    have "first_minimum dst (xs @ [x]) (length xs)"
      using closer differ by (auto simp: first_minimum_def num_lt_irrefl)
    then show ?thesis using upd True by (intro disjI2 exI [of _ "length xs"]) simp
  next
    case False
    then have "scan_step dst mk x (bm0, bd0) = (bm0, bd0)"
      by (auto simp: scan_step_def)
    then have keep: "bm = bm0" "bd = bd0"
      using now by simp_all
    from IH show ?thesis
    proof (elim disjE exE conjE)
      assume a: "bm0 = None" "bd0 = PosInf" "\<forall>y\<in>set xs. \<not> num_lt (dst y) threshold"
      have "\<not> num_lt (dst x) threshold"
        using False a(2) num_lt_threshold_PosInf by blast
      then show ?thesis using a keep by simp
    next
      fix k
      assume a: "bm0 = Some (mk (xs ! k))" "bd0 = dst (xs ! k)" "num_lt bd0 threshold"
        "first_minimum dst xs k"
      have k: "k < length xs" using a(4) by (simp add: first_minimum_def)
      have "\<not> num_lt (dst x) bd0"
        using False a(3) num_lt_trans by blast
      then have "first_minimum dst (xs @ [x]) k"
        using a(2,4) k by (auto simp: first_minimum_def nth_append)
      then show ?thesis using a keep k by (intro disjI2 exI [of _ k]) (simp add: nth_append)
    qed
  qed
qed

lemma descriptors_loop_fold:
  "descriptors_loop p s ds b = fold (scan_step (pair_distance p) (match_object p)) (map (Pair s) ds) b"
proof (induction ds arbitrary: b)
  case Nil
  then show ?case by (cases b) simp
next
  case (Cons d ds)
  then show ?case
    by (cases b) (simp add: scan_step_def pair_distance_def match_object_def student_info_def Let_def)
qed

lemma students_loop_fold:
  "students_loop p students b = fold (scan_step (pair_distance p) (match_object p)) (pairs students) b"
  by (induction students arbitrary: b) (simp_all add: pairs_def descriptors_loop_fold)

lemma stored_callback_step:
  "stored_callback p s d b = scan_step (pair_distance p) (match_object_optimized p) (s, d) b"
  by (simp add: stored_callback_def scan_step_def pair_distance_def match_object_optimized_def
      student_info_def Let_def euclideanDistance_reduce_eq)

lemma student_callback_fold:
  "student_callback p s b =
   fold (scan_step (pair_distance p) (match_object_optimized p)) (map (Pair s) (faceDescriptors s)) b"
proof -
  have "stored_callback p s = scan_step (pair_distance p) (match_object_optimized p) \<circ> Pair s"
    by (intro ext) (simp add: stored_callback_step)
  then show ?thesis by (simp add: student_callback_def fold_map)
qed

lemma students_forEach_fold:
  "fold (student_callback p) students b =
   fold (scan_step (pair_distance p) (match_object_optimized p)) (pairs students) b"
proof (induction students arbitrary: b)
  case Nil
  then show ?case by (simp add: pairs_def)
next
  case (Cons s students)
  have "pairs (s # students) = map (Pair s) (faceDescriptors s) @ pairs students"
    by (simp add: pairs_def)
  then show ?case using Cons by (simp add: student_callback_fold)
qed

lemma scan_result:
  "(fst (fold (scan_step dst mk) xs (None, PosInf)) = None \<and>
    snd (fold (scan_step dst mk) xs (None, PosInf)) = PosInf \<and>
    (\<forall>y\<in>set xs. \<not> num_lt (dst y) threshold)) \<or>
   (\<exists>k. fst (fold (scan_step dst mk) xs (None, PosInf)) = Some (mk (xs ! k)) \<and>
        snd (fold (scan_step dst mk) xs (None, PosInf)) = dst (xs ! k) \<and>
        num_lt (dst (xs ! k)) threshold \<and> first_minimum dst xs k)"
  using scan_fold [of dst mk xs "fst (fold (scan_step dst mk) xs (None, PosInf))"
      "snd (fold (scan_step dst mk) xs (None, PosInf))"]
  by auto

lemma bestMatch_of_cases:
  "(bestMatch_of students p = None \<and> bestDistance_of students p = PosInf \<and>
    (\<forall>x\<in>set (pairs students). \<not> num_lt (pair_distance p x) threshold)) \<or>
   (\<exists>k. bestMatch_of students p = Some (match_object p (pairs students ! k)) \<and>
        bestDistance_of students p = pair_distance p (pairs students ! k) \<and>
        num_lt (pair_distance p (pairs students ! k)) threshold \<and>
        first_minimum (pair_distance p) (pairs students) k)"
  unfolding bestMatch_of_def bestDistance_of_def students_loop_fold by (rule scan_result)

lemma bestMatch_of_optimized_cases:
  "(bestMatch_of_optimized students p = None \<and> bestDistance_of_optimized students p = PosInf \<and>
    (\<forall>x\<in>set (pairs students). \<not> num_lt (pair_distance p x) threshold)) \<or>
   (\<exists>k. bestMatch_of_optimized students p = Some (match_object_optimized p (pairs students ! k)) \<and>
        bestDistance_of_optimized students p = pair_distance p (pairs students ! k) \<and>
        num_lt (pair_distance p (pairs students ! k)) threshold \<and>
        first_minimum (pair_distance p) (pairs students) k)"
  unfolding bestMatch_of_optimized_def bestDistance_of_optimized_def students_forEach_fold
  by (rule scan_result)

lemma probes_loop_map_filter:
  "probes_loop students probes matches = matches @ List.map_filter (bestMatch_of students) probes"
  by (induction probes arbitrary: matches)
     (simp_all add: bestMatch_of_def split: option.splits)

lemma probes_forEach_map_filter:
  "fold (probe_callback students) probes matches =
   matches @ List.map_filter (bestMatch_of_optimized students) probes"
  by (induction probes arbitrary: matches)
     (simp_all add: probe_callback_def bestMatch_of_optimized_def split: option.splits)

lemma pairs_Nil: "pairs [] = []"
  by (simp add: pairs_def)

lemma pairs_Cons: "pairs (s # students) = map (Pair s) (faceDescriptors s) @ pairs students"
  by (simp add: pairs_def)

lemma pairs_no_descriptors: "(\<forall>s\<in>set students. faceDescriptors s = []) \<Longrightarrow> pairs students = []"
  by (induction students) (simp_all add: pairs_Nil pairs_Cons)

lemma pairs_find_with_descriptors: "pairs (find_with_descriptors students) = pairs students"
  by (induction students) (simp_all add: find_with_descriptors_def pairs_Nil pairs_Cons)

lemma bestMatch_of_pairs:
  "bestMatch_of students p =
   fst (fold (scan_step (pair_distance p) (match_object p)) (pairs students) (None, PosInf))"
  by (simp add: bestMatch_of_def students_loop_fold)

lemma bestMatch_of_optimized_pairs:
  "bestMatch_of_optimized students p =
   fst (fold (scan_step (pair_distance p) (match_object_optimized p)) (pairs students) (None, PosInf))"
  by (simp add: bestMatch_of_optimized_def students_forEach_fold)

lemma bestDistance_of_pairs:
  "bestDistance_of students p =
   snd (fold (scan_step (pair_distance p) (match_object p)) (pairs students) (None, PosInf))"
  by (simp add: bestDistance_of_def students_loop_fold)

lemma bestDistance_of_optimized_pairs:
  "bestDistance_of_optimized students p =
   snd (fold (scan_step (pair_distance p) (match_object_optimized p)) (pairs students) (None, PosInf))"
  by (simp add: bestDistance_of_optimized_def students_forEach_fold)

lemma recognize_matches:
  "recognize (Inr collection) \<lparr>detectedDescriptors = Some probes\<rparr> =
   Json200 (List.map_filter (bestMatch_of (find_with_descriptors collection)) probes)"
  by (simp add: recognize_def probes_loop_map_filter)

lemma recognize_optimized_matches:
  "recognize_optimized (Inr collection) \<lparr>detectedDescriptors = Some probes\<rparr> =
   Json200 (List.map_filter (bestMatch_of_optimized (find_with_descriptors collection)) probes)"
  by (simp add: recognize_optimized_def probes_forEach_map_filter)

lemma emitted_iff:
  assumes cases: "(bm = None \<and> (\<forall>x\<in>set xs. \<not> num_lt (dst x) threshold)) \<or>
     (\<exists>k. bm = Some (mk (xs ! k)) \<and> num_lt (dst (xs ! k)) threshold \<and> first_minimum dst xs k)"
  shows "(bm \<noteq> None) =
     (\<exists>x\<in>set xs. num_lt (dst x) threshold \<and> (\<forall>y\<in>set xs. \<not> num_lt (dst y) (dst x)))"
proof
  assume "bm \<noteq> None"
  then obtain k where k: "num_lt (dst (xs ! k)) threshold" "first_minimum dst xs k"
    using cases by auto
  then have "xs ! k \<in> set xs" "\<forall>y\<in>set xs. \<not> num_lt (dst y) (dst (xs ! k))"
    by (simp_all add: first_minimum_def)
  then show "\<exists>x\<in>set xs. num_lt (dst x) threshold \<and> (\<forall>y\<in>set xs. \<not> num_lt (dst y) (dst x))"
    using k(1) by blast
next
  assume "\<exists>x\<in>set xs. num_lt (dst x) threshold \<and> (\<forall>y\<in>set xs. \<not> num_lt (dst y) (dst x))"
  then show "bm \<noteq> None" using cases by auto
qed

lemma bestMatch_of_emitted:
  "(bestMatch_of students p \<noteq> None) =
   (\<exists>x\<in>set (pairs students). num_lt (pair_distance p x) threshold \<and>
      (\<forall>y\<in>set (pairs students). \<not> num_lt (pair_distance p y) (pair_distance p x)))"
  using bestMatch_of_cases [of students p] by (intro emitted_iff [where mk = "match_object p"]) auto

lemma bestMatch_of_optimized_emitted:
  "(bestMatch_of_optimized students p \<noteq> None) =
   (\<exists>x\<in>set (pairs students). num_lt (pair_distance p x) threshold \<and>
      (\<forall>y\<in>set (pairs students). \<not> num_lt (pair_distance p y) (pair_distance p x)))"
  using bestMatch_of_optimized_cases [of students p]
  by (intro emitted_iff [where mk = "match_object_optimized p"]) auto


lemma no_candidates:
  assumes "pairs students = []"
  shows "bestMatch_of students p = None \<and> bestMatch_of_optimized students p = None"
  using assms by (simp add: bestMatch_of_pairs bestMatch_of_optimized_pairs)


lemma longer_probe_never_matches:
  assumes "\<forall>x\<in>set xs. length (snd x) < length p"
  shows "fst (fold (scan_step (pair_distance p) mk) xs (None, PosInf)) = None"
proof -
  have "\<forall>x\<in>set xs. \<not> num_lt (pair_distance p x) threshold"
    using assms by (simp add: pair_distance_def euclideanDistance_out_of_range)
  then have "fold (scan_step (pair_distance p) mk) xs b = b" for b
    by (induction xs arbitrary: b) (simp_all add: scan_step_def)
  then show ?thesis by simp
qed


text \<open>
  A probe of one component against a stored descriptor with at least one, first when
  no operation rounds, then in general.
\<close>

lemma euclideanDistance_single:
  assumes "to_double (x - y) = Fin u" "to_double (u ^ 2) = Fin v" "to_double v = Fin v"
    and "0 \<le> v" "to_double (sqrt v) = Fin w"
  shows "euclideanDistance [x] (y # ys) = Fin w"
proof -
  have "rounded_sum_of_squares [x] (y # ys) (Suc 0) = Fin v"
    using assms(1-3) by simp
  then show ?thesis
    using assms(4,5) euclideanDistance_rounded [of "[x]" "y # ys"] by simp
qed

lemma euclideanDistance_single_exact:
  assumes "to_double (x - y) = Fin u" "to_double (u ^ 2) = Fin (u ^ 2)" "to_double \<bar>u\<bar> = Fin \<bar>u\<bar>"
  shows "euclideanDistance [x] (y # ys) = Fin \<bar>u\<bar>"
  using assms by (intro euclideanDistance_single [where u = u and v = "u ^ 2"]) simp_all




lemma euclideanDistance_single_overflow:
  assumes "to_double (x - y) = Fin u" "2 ^ 1024 \<le> u ^ 2"
  shows "euclideanDistance [x] (y # ys) = PosInf"
proof -
  have "to_double (u ^ 2) = PosInf"
    using assms(2) by (rule to_double_huge)
  then have "rounded_sum_of_squares [x] (y # ys) (Suc 0) = PosInf"
    using assms(1) by simp
  then show ?thesis
    using euclideanDistance_rounded [of "[x]" "y # ys"] by simp
qed

text \<open>
  The subtraction rounds before \<^verbatim>\<open>toFixed\<close> formats: for the distance 0.165, that is
  the double \<open>5944751508129055 / 2^55\<close>, one minus the distance is the double nearest
  to 0.835, which lies below it and prints as "0.83".
\<close>

lemma confidence_rounds_before_toFixed:
  "num_sub (Fin 1) (Fin (5944751508129055 / 2 ^ 55)) = Fin (7521011377708728 / 2 ^ 53) \<and>
   toFixed 2 (num_sub (Fin 1) (Fin (5944751508129055 / 2 ^ 55))) = ''0.83''"
proof -
  have "to_double (1 - 5944751508129055 / 2 ^ 55) = Fin (7521011377708728 / 2 ^ 53)"
    using to_double_eval [of "- 1" "1 - 5944751508129055 / 2 ^ 55" 7521011377708728]
    by (simp add: powr_neg_numeral powr_neg_one)
  then show ?thesis
    by (simp add: fixed_notation_def digit_char_def)
qed

text \<open>The facts that evaluate a scan over an explicit gallery.\<close>

lemmas scan_eval =
  bestMatch_of_pairs bestMatch_of_optimized_pairs bestDistance_of_pairs
  bestDistance_of_optimized_pairs pairs_Nil pairs_Cons example_student_def
  scan_step_def pair_distance_def threshold_eq

section \<open>The claims about the distance\<close>

text \<open>
  Claim C6, as the specification states it: on vectors of equal length the distance is
  the real number \<open>sqrt (\<Sum> (a_i - b_i)^2)\<close>. The helper computes in doubles: for
  the vectors \<open>[2^512]\<close> and \<open>[0]\<close> the square overflows and the result is
  \<^verbatim>\<open>Infinity\<close>, where the formula gives \<open>2^512\<close>.
\<close>

theorem C6_euclidean_formula_counterexample:
  "euclideanDistance [2 ^ 512] [0] = PosInf \<and> euclideanDistance_reduce [2 ^ 512] [0] = PosInf \<and>
   euclideanDistance [2 ^ 512] [0] \<noteq>
     Fin (sqrt (\<Sum>i<length [2 ^ 512 :: real]. ([2 ^ 512] ! i - [0] ! i) ^ 2))"
proof -
  have a: "to_double (2 ^ 512 - 0) = Fin (2 ^ 512)"
    unfolding diff_zero by (rule to_double_exact [where m = 1 and k = 512]) simp_all
  have "((2 :: real) ^ 512) ^ 2 = 2 ^ (512 * 2)"
    by (rule power_mult [symmetric])
  then have b: "(2 :: real) ^ 1024 \<le> (2 ^ 512) ^ 2"
    by (simp only: mult_2_right semiring_norm order_refl)
  have d: "euclideanDistance [2 ^ 512] [0] = PosInf"
    using a b by (rule euclideanDistance_single_overflow)
  show ?thesis
    unfolding euclideanDistance_reduce_eq d by (intro conjI refl) (rule number.distinct)
qed

text \<open>
  Claim C6, amended: on vectors of equal length the distance is the Euclidean formula
  evaluated in the arithmetic of the program, with no normalisation and no weights:
  each difference, each square, each partial sum taken from the left, and the final
  square root is rounded to the nearest double, and an overflow gives \<^verbatim>\<open>Infinity\<close>.
  Whenever no difference, square or partial sum needs rounding, the result is the
  double nearest to \<open>sqrt (\<Sum> (a_i - b_i)^2)\<close>. Both versions of the helper compute it.
\<close>

theorem C6_rounded_euclidean_formula:
  assumes "length a = length b"
  shows "euclideanDistance a b = num_sqrt (rounded_sum_of_squares a b (length a)) \<and>
         euclideanDistance_reduce a b = num_sqrt (rounded_sum_of_squares a b (length a)) \<and>
         ((\<forall>i<length a. to_double (a ! i - b ! i) = Fin (a ! i - b ! i) \<and>
              to_double ((a ! i - b ! i) ^ 2) = Fin ((a ! i - b ! i) ^ 2) \<and>
              to_double (\<Sum>k\<le>i. (a ! k - b ! k) ^ 2) = Fin (\<Sum>k\<le>i. (a ! k - b ! k) ^ 2)) \<longrightarrow>
          euclideanDistance a b = to_double (sqrt (\<Sum>i<length a. (a ! i - b ! i) ^ 2)) \<and>
          euclideanDistance_reduce a b = to_double (sqrt (\<Sum>i<length a. (a ! i - b ! i) ^ 2)))"
proof (intro conjI impI)
  show r: "euclideanDistance a b = num_sqrt (rounded_sum_of_squares a b (length a))"
    using assms by (simp add: euclideanDistance_rounded)
  then show "euclideanDistance_reduce a b = num_sqrt (rounded_sum_of_squares a b (length a))"
    by (simp add: euclideanDistance_reduce_eq)
  assume "\<forall>i<length a. to_double (a ! i - b ! i) = Fin (a ! i - b ! i) \<and>
              to_double ((a ! i - b ! i) ^ 2) = Fin ((a ! i - b ! i) ^ 2) \<and>
              to_double (\<Sum>k\<le>i. (a ! k - b ! k) ^ 2) = Fin (\<Sum>k\<le>i. (a ! k - b ! k) ^ 2)"
  then have "rounded_sum_of_squares a b (length a) = Fin (\<Sum>k<length a. (a ! k - b ! k) ^ 2)"
    by (rule rounded_sum_of_squares_exact)
  moreover have "\<not> (\<Sum>k<length a. (a ! k - b ! k) ^ 2) < 0"
    by (simp add: sum_nonneg not_less)
  ultimately show e: "euclideanDistance a b = to_double (sqrt (\<Sum>i<length a. (a ! i - b ! i) ^ 2))"
    using r by simp
  then show "euclideanDistance_reduce a b = to_double (sqrt (\<Sum>i<length a. (a ! i - b ! i) ^ 2))"
    by (simp add: euclideanDistance_reduce_eq)
qed

theorem C6_rounded_euclidean_formula_witness:
  "euclideanDistance [3, 0] [0, 4] = Fin 5 \<and> euclideanDistance_reduce [3, 0] [0, 4] = Fin 5"
proof -
  have len: "length [3, 0 :: real] = length [0, 4 :: real]" by simp
  have e3: "to_double (3) = Fin (3)"
    using to_double_exact [of 3 3 0] by (simp add: powr_neg_numeral)
  have e9: "to_double (9) = Fin (9)"
    using to_double_exact [of 9 9 0] by (simp add: powr_neg_numeral)
  have e4: "to_double (- 4) = Fin (- 4)"
    using to_double_exact [of "- 4" "- 1" 2] by (simp add: powr_neg_numeral)
  have e16: "to_double (16) = Fin (16)"
    using to_double_exact [of 16 1 4] by (simp add: powr_neg_numeral)
  have e25: "to_double (25) = Fin (25)"
    using to_double_exact [of 25 25 0] by (simp add: powr_neg_numeral)
  have e5: "to_double (5) = Fin (5)"
    using to_double_exact [of 5 5 0] by (simp add: powr_neg_numeral)
  have exact: "\<forall>i<length [3, 0 :: real].
      to_double ([3, 0] ! i - [0, 4] ! i) = Fin ([3, 0] ! i - [0, 4] ! i) \<and>
      to_double (([3, 0] ! i - [0, 4] ! i) ^ 2) = Fin (([3, 0] ! i - [0, 4] ! i) ^ 2) \<and>
      to_double (\<Sum>k\<le>i. ([3, 0] ! k - [0, 4] ! k) ^ 2) = Fin (\<Sum>k\<le>i. ([3, 0] ! k - [0, 4] ! k) ^ 2)"
    by (simp add: All_less_Suc e3 e9 e4 e16 e25)
  have "(\<Sum>i<length [3, 0 :: real]. ([3, 0] ! i - [0, 4 :: real] ! i) ^ 2) = 5 ^ 2"
    by (simp add: lessThan_Suc numeral_2_eq_2)
  then have root: "sqrt (\<Sum>i<length [3, 0 :: real]. ([3, 0] ! i - [0, 4 :: real] ! i) ^ 2) = 5"
    by (simp only: real_sqrt_abs)
  note inst = C6_rounded_euclidean_formula [OF len]
  have "euclideanDistance [3, 0] [0, 4] = to_double 5 \<and>
      euclideanDistance_reduce [3, 0] [0, 4] = to_double 5"
    using inst exact unfolding root by blast
  then have 1: "euclideanDistance [3, 0] [0, 4] = Fin 5"
    and 2: "euclideanDistance_reduce [3, 0] [0, 4] = Fin 5"
    by (simp_all only: e5)
  show ?thesis using 1 2 by blast
qed

text \<open>
  Claim C8. For all descriptors \<open>a\<close> and \<open>b\<close> of equal length, the distance from \<open>a\<close>
  to \<open>b\<close> equals the distance from \<open>b\<close> to \<open>a\<close>, and the distance from \<open>a\<close> to itself
  is zero.
\<close>

theorem C8_symmetry_identity:
  assumes "length a = length b"
  shows "euclideanDistance a b = euclideanDistance b a \<and> euclideanDistance a a = Fin 0 \<and>
         euclideanDistance_reduce a b = euclideanDistance_reduce b a \<and>
         euclideanDistance_reduce a a = Fin 0"
proof -
  have "euclideanDistance a b = euclideanDistance b a"
    using assms by (simp add: euclideanDistance_rounded rounded_sum_of_squares_swap [of a b])
  moreover have "euclideanDistance a a = Fin 0"
    by (simp add: euclideanDistance_rounded rounded_sum_of_squares_self to_double_0)
  ultimately show ?thesis by (simp add: euclideanDistance_reduce_eq)
qed

theorem C8_symmetry_identity_witness:
  "length [1, 2 :: real] = length [4, 6 :: real] \<and>
   euclideanDistance [1, 2] [4, 6] = euclideanDistance [4, 6] [1, 2] \<and>
   euclideanDistance [1, 2] [1, 2] = Fin 0"
proof -
  have len: "length [1, 2 :: real] = length [4, 6 :: real]" by simp
  show ?thesis using C8_symmetry_identity [OF len] by simp
qed

section \<open>The claims about the result sequence\<close>

text \<open>
  Claim C1, as the specification states it: the result sequence has exactly one entry
  per probe, "no match" included, so its length is the number of probes. The handlers
  push an entry only under \<^verbatim>\<open>if (bestMatch)\<close>: with one enrolled student and the
  probes \<open>[5]\<close> (no match) and \<open>[0.125]\<close> (a match) the answer has one entry for two
  probes, and the entry of the second probe stands first.
\<close>

theorem C1_one_entry_per_probe_counterexample:
  "recognize (Inr [example_student ''S1'' [[0]]]) \<lparr>detectedDescriptors = Some [[5], [1 / 8]]\<rparr> =
     Json200 [match_object [1 / 8] (example_student ''S1'' [[0]], [0])] \<and>
   recognize_optimized (Inr [example_student ''S1'' [[0]]]) \<lparr>detectedDescriptors = Some [[5], [1 / 8]]\<rparr> =
     Json200 [match_object_optimized [1 / 8] (example_student ''S1'' [[0]], [0])] \<and>
   length [match_object [1 / 8] (example_student ''S1'' [[0]], [0])] \<noteq> length [[5], [1 / 8 :: real]]"
proof -
  have far: "euclideanDistance [5] [0] = Fin (5)"
    using euclideanDistance_single_exact [of 5 0 5 "[]"]
      to_double_exact [of 5 5 0]
      to_double_exact [of 25 25 0]
      to_double_exact [of 5 5 0]
    by (simp add: powr_neg_numeral power_divide)
  have near: "euclideanDistance [1 / 8] [0] = Fin (1 / 8)"
    using euclideanDistance_single_exact [of "1 / 8" 0 "1 / 8" "[]"]
      to_double_exact [of "1 / 8" 1 "- 3"]
      to_double_exact [of "1 / 64" 1 "- 6"]
      to_double_exact [of "1 / 8" 1 "- 3"]
    by (simp add: powr_neg_numeral power_divide)
  show ?thesis
    using far near
    by (simp add: recognize_matches recognize_optimized_matches find_with_descriptors_def scan_eval)
qed

text \<open>
  Claim C1, amended: the result sequence has exactly one entry for every probe that has
  a match, in the order of those probes; a probe that matches nothing contributes no
  entry. Its length is the number of matched probes.
\<close>

theorem C1_one_entry_per_matched_probe:
  "recognize (Inr collection) \<lparr>detectedDescriptors = Some probes\<rparr> =
     Json200 (List.map_filter (bestMatch_of (find_with_descriptors collection)) probes) \<and>
   recognize_optimized (Inr collection) \<lparr>detectedDescriptors = Some probes\<rparr> =
     Json200 (List.map_filter (bestMatch_of_optimized (find_with_descriptors collection)) probes) \<and>
   length (probes_loop students probes []) =
     length (filter (\<lambda>p. bestMatch_of students p \<noteq> None) probes) \<and>
   length (fold (probe_callback students) probes []) =
     length (filter (\<lambda>p. bestMatch_of_optimized students p \<noteq> None) probes)"
  by (simp add: recognize_matches recognize_optimized_matches probes_loop_map_filter
      probes_forEach_map_filter map_filter_def)

text \<open>
  Claim C9. For every gallery and any two probes \<open>p1\<close> and \<open>p2\<close>, the batch \<open>[p1, p2]\<close>
  yields for each probe what the batches \<open>[p1]\<close> and \<open>[p2]\<close> yield against the same
  gallery: the matches of the pair are those of \<open>p1\<close> followed by those of \<open>p2\<close>, and what
  a single probe yields depends on that probe and the gallery only.
\<close>

theorem C9_batch_independence:
  "probes_loop students [p1, p2] [] = probes_loop students [p1] [] @ probes_loop students [p2] [] \<and>
   fold (probe_callback students) [p1, p2] [] =
     fold (probe_callback students) [p1] [] @ fold (probe_callback students) [p2] [] \<and>
   probes_loop students [p1] [] = (case bestMatch_of students p1 of None \<Rightarrow> [] | Some m \<Rightarrow> [m]) \<and>
   fold (probe_callback students) [p1] [] =
     (case bestMatch_of_optimized students p1 of None \<Rightarrow> [] | Some m \<Rightarrow> [m])"
proof -
  have a: "probes_loop students ps [] = List.map_filter (bestMatch_of students) ps" for ps
    by (simp add: probes_loop_map_filter)
  have b: "fold (probe_callback students) ps [] = List.map_filter (bestMatch_of_optimized students) ps" for ps
    using probes_forEach_map_filter [of students ps "[]"] by simp
  show ?thesis
    unfolding a b by (simp split: option.splits)
qed

section \<open>The claims about the selection\<close>








section \<open>The claims about galleries and lengths\<close>

text \<open>
  Claim C7. If the gallery holds no eligible identity, because it is empty or because
  every identity has an empty descriptor collection, then no probe has a match; an
  identity with no descriptor is skipped without an error, so removing such identities
  from a gallery changes no result.
\<close>

theorem C7_no_eligible_identity:
  "((\<forall>s\<in>set students. faceDescriptors s = []) \<longrightarrow>
      bestMatch_of students p = None \<and> bestMatch_of_optimized students p = None \<and>
      probes_loop students probes [] = [] \<and> fold (probe_callback students) probes [] = [] \<and>
      recognize (Inr students) \<lparr>detectedDescriptors = Some probes\<rparr> = Json200 [] \<and>
      recognize_optimized (Inr students) \<lparr>detectedDescriptors = Some probes\<rparr> = Json200 []) \<and>
   bestMatch_of students p = bestMatch_of (filter (\<lambda>s. faceDescriptors s \<noteq> []) students) p \<and>
   bestMatch_of_optimized students p =
     bestMatch_of_optimized (filter (\<lambda>s. faceDescriptors s \<noteq> []) students) p"
proof (intro conjI impI)
  assume empty: "\<forall>s\<in>set students. faceDescriptors s = []"
  then have none: "bestMatch_of students q = None \<and> bestMatch_of_optimized students q = None" for q
    by (intro no_candidates pairs_no_descriptors)
  have found: "find_with_descriptors students = []"
    using empty by (simp add: find_with_descriptors_def)
  show "bestMatch_of students p = None" "bestMatch_of_optimized students p = None"
    using none by simp_all
  show "probes_loop students probes [] = []"
    using none by (simp add: probes_loop_map_filter map_filter_def)
  show "fold (probe_callback students) probes [] = []"
    using none by (simp add: probes_forEach_map_filter map_filter_def)
  show "recognize (Inr students) \<lparr>detectedDescriptors = Some probes\<rparr> = Json200 []"
    using no_candidates [of "[]"] by (simp add: recognize_matches found map_filter_def pairs_Nil)
  show "recognize_optimized (Inr students) \<lparr>detectedDescriptors = Some probes\<rparr> = Json200 []"
    using no_candidates [of "[]"] by (simp add: recognize_optimized_matches found map_filter_def pairs_Nil)
next
  show "bestMatch_of students p = bestMatch_of (filter (\<lambda>s. faceDescriptors s \<noteq> []) students) p"
    using pairs_find_with_descriptors [of students]
    by (simp add: bestMatch_of_pairs find_with_descriptors_def)
  show "bestMatch_of_optimized students p =
     bestMatch_of_optimized (filter (\<lambda>s. faceDescriptors s \<noteq> []) students) p"
    using pairs_find_with_descriptors [of students]
    by (simp add: bestMatch_of_optimized_pairs find_with_descriptors_def)
qed

theorem C7_no_eligible_identity_witness:
  "faceDescriptors (example_student ''S1'' []) = [] \<and>
   faceDescriptors (example_student ''S2'' []) = [] \<and>
   probes_loop [example_student ''S1'' [], example_student ''S2'' []] [[1 / 8], [1 / 4]] [] = [] \<and>
   fold (probe_callback [example_student ''S1'' [], example_student ''S2'' []]) [[1 / 8], [1 / 4]] [] = [] \<and>
   recognize (Inr []) \<lparr>detectedDescriptors = Some [[1 / 8], [1 / 4]]\<rparr> = Json200 [] \<and>
   bestMatch_of [example_student ''S1'' [], example_student ''S2'' [[0]]] [1 / 8] =
     bestMatch_of [example_student ''S2'' [[0]]] [1 / 8]"
proof -
  let ?g = "[example_student ''S1'' [], example_student ''S2'' []]"
  have e: "\<forall>s\<in>set ?g. faceDescriptors s = []"
    by (simp add: example_student_def)
  have 1: "probes_loop ?g [[1 / 8], [1 / 4]] [] = [] \<and>
      fold (probe_callback ?g) [[1 / 8], [1 / 4]] [] = []"
    using C7_no_eligible_identity [of ?g _ "[[1 / 8], [1 / 4]]"] e by blast
  have 2: "recognize (Inr []) \<lparr>detectedDescriptors = Some [[1 / 8], [1 / 4]]\<rparr> = Json200 []"
    using C7_no_eligible_identity [of "[]" _ "[[1 / 8], [1 / 4]]"] by simp
  have 3: "bestMatch_of [example_student ''S1'' [], example_student ''S2'' [[0]]] [1 / 8] =
     bestMatch_of [example_student ''S2'' [[0]]] [1 / 8]"
    using C7_no_eligible_identity [of "[example_student ''S1'' [], example_student ''S2'' [[0]]]" "[1 / 8]"]
    by (simp add: example_student_def)
  show ?thesis using 1 2 3 by (simp add: example_student_def)
qed



text \<open>
  Claim C2, as the specification states it: a call in which a probe and a stored
  descriptor differ in length fails with an \<open>InvalidInput\<close> error and is aborted. The
  handlers hold no length check. With the stored descriptor \<open>[0, 7]\<close>, the probe
  \<open>[0.125]\<close> is matched on its single component and the probe \<open>[0.125, 7, 9]\<close> is
  dropped as unmatched; the call answers with the one match.
\<close>

theorem C2_invalid_input_counterexample:
  "recognize (Inr [example_student ''S1'' [[0, 7]]])
     \<lparr>detectedDescriptors = Some [[1 / 8], [1 / 8, 7, 9]]\<rparr> =
     Json200 [\<lparr>student = student_info (example_student ''S1'' [[0, 7]]),
               confidence = JNumber (Fin (7 / 8)), distance = JNumber (Fin (1 / 8))\<rparr>] \<and>
   recognize_optimized (Inr [example_student ''S1'' [[0, 7]]])
     \<lparr>detectedDescriptors = Some [[1 / 8], [1 / 8, 7, 9]]\<rparr> =
     Json200 [\<lparr>student = student_info (example_student ''S1'' [[0, 7]]),
               confidence = JString ''0.88'', distance = JString ''0.125''\<rparr>]"
proof -
  have d: "euclideanDistance [1 / 8] [0, 7] = Fin (1 / 8)"
    using euclideanDistance_single_exact [of "1 / 8" 0 "1 / 8" "[7]"]
      to_double_exact [of "1 / 8" 1 "- 3"]
      to_double_exact [of "1 / 64" 1 "- 6"]
      to_double_exact [of "1 / 8" 1 "- 3"]
    by (simp add: powr_neg_numeral power_divide)
  have c: "to_double (7 / 8) = Fin (7 / 8)"
    using to_double_exact [of "7 / 8" 7 "- 3"] by (simp add: powr_neg_numeral)
  have n: "euclideanDistance [1 / 8, 7, 9] [0, 7] = NaN"
    by (simp add: euclideanDistance_out_of_range)
  show ?thesis
    using d c n
    by (simp add: recognize_matches recognize_optimized_matches find_with_descriptors_def scan_eval
        match_object_def match_object_optimized_def fixed_notation_def digit_char_def)
qed

text \<open>
  Claim C2, amended: a call in which a probe and a stored descriptor differ in length
  raises no error and is not aborted; whenever the query succeeds and the probe array
  is present, the answer is the list of the best matches of the probes. A pair whose
  stored descriptor is shorter than the probe has the distance \<^verbatim>\<open>NaN\<close> and never
  matches, whatever else the gallery holds: the pair that wins is never shorter than
  the probe, and a probe has a match exactly when some pair at least as long as the
  probe is below the threshold. A pair whose stored descriptor is longer is compared on
  the components of the probe only.
\<close>

theorem C2_mismatch_raises_nothing:
  "recognize (Inr collection) \<lparr>detectedDescriptors = Some probes\<rparr> =
     Json200 (List.map_filter (bestMatch_of (find_with_descriptors collection)) probes) \<and>
   recognize_optimized (Inr collection) \<lparr>detectedDescriptors = Some probes\<rparr> =
     Json200 (List.map_filter (bestMatch_of_optimized (find_with_descriptors collection)) probes) \<and>
   (length d < length p \<longrightarrow> euclideanDistance p d = NaN \<and> euclideanDistance_reduce p d = NaN) \<and>
   (bestMatch_of students p = Some m \<longrightarrow>
      (\<exists>k. first_minimum (pair_distance p) (pairs students) k \<and>
           m = match_object p (pairs students ! k) \<and>
           length p \<le> length (snd (pairs students ! k)))) \<and>
   (bestMatch_of_optimized students p = Some m \<longrightarrow>
      (\<exists>k. first_minimum (pair_distance p) (pairs students) k \<and>
           m = match_object_optimized p (pairs students ! k) \<and>
           length p \<le> length (snd (pairs students ! k)))) \<and>
   (bestMatch_of students p \<noteq> None) =
     (\<exists>x\<in>set (pairs students). length p \<le> length (snd x) \<and> num_lt (pair_distance p x) threshold) \<and>
   (bestMatch_of_optimized students p \<noteq> None) =
     (\<exists>x\<in>set (pairs students). length p \<le> length (snd x) \<and> num_lt (pair_distance p x) threshold) \<and>
   (length p < length d \<longrightarrow>
      euclideanDistance p d = euclideanDistance p (take (length p) d) \<and>
      euclideanDistance_reduce p d = euclideanDistance_reduce p (take (length p) d))"
proof -
  have long: "length p \<le> length (snd x)" if "num_lt (pair_distance p x) threshold" for x
  proof (rule ccontr)
    assume "\<not> length p \<le> length (snd x)"
    then have "pair_distance p x = NaN"
      by (simp add: pair_distance_def euclideanDistance_out_of_range)
    then show False using that by simp
  qed
  have below: "(\<exists>x\<in>set (pairs students). num_lt (pair_distance p x) threshold \<and>
        (\<forall>y\<in>set (pairs students). \<not> num_lt (pair_distance p y) (pair_distance p x))) =
      (\<exists>x\<in>set (pairs students). length p \<le> length (snd x) \<and> num_lt (pair_distance p x) threshold)"
    (is "?l = ?r")
  proof
    assume ?l
    then show ?r using long by blast
  next
    assume ?r
    then have "\<not> (\<forall>x\<in>set (pairs students). \<not> num_lt (pair_distance p x) threshold)" by blast
    then have "bestMatch_of students p \<noteq> None"
      using bestMatch_of_cases [of students p] by auto
    then show ?l by (simp only: bestMatch_of_emitted)
  qed
  show ?thesis
  proof (intro conjI impI)
    show "recognize (Inr collection) \<lparr>detectedDescriptors = Some probes\<rparr> =
        Json200 (List.map_filter (bestMatch_of (find_with_descriptors collection)) probes)"
      by (rule recognize_matches)
    show "recognize_optimized (Inr collection) \<lparr>detectedDescriptors = Some probes\<rparr> =
        Json200 (List.map_filter (bestMatch_of_optimized (find_with_descriptors collection)) probes)"
      by (rule recognize_optimized_matches)
    show "(bestMatch_of students p \<noteq> None) =
        (\<exists>x\<in>set (pairs students). length p \<le> length (snd x) \<and> num_lt (pair_distance p x) threshold)"
      using below by (simp only: bestMatch_of_emitted)
    show "(bestMatch_of_optimized students p \<noteq> None) =
        (\<exists>x\<in>set (pairs students). length p \<le> length (snd x) \<and> num_lt (pair_distance p x) threshold)"
      using below by (simp only: bestMatch_of_optimized_emitted)
  next
    assume "length d < length p"
    then show "euclideanDistance p d = NaN" "euclideanDistance_reduce p d = NaN"
      by (simp_all add: euclideanDistance_reduce_eq euclideanDistance_out_of_range)
  next
    assume "bestMatch_of students p = Some m"
    then obtain k where k: "m = match_object p (pairs students ! k)"
      "num_lt (pair_distance p (pairs students ! k)) threshold"
      "first_minimum (pair_distance p) (pairs students) k"
      using bestMatch_of_cases [of students p] by auto
    then show "\<exists>k. first_minimum (pair_distance p) (pairs students) k \<and>
        m = match_object p (pairs students ! k) \<and> length p \<le> length (snd (pairs students ! k))"
      using long by blast
  next
    assume "bestMatch_of_optimized students p = Some m"
    then obtain k where k: "m = match_object_optimized p (pairs students ! k)"
      "num_lt (pair_distance p (pairs students ! k)) threshold"
      "first_minimum (pair_distance p) (pairs students) k"
      using bestMatch_of_optimized_cases [of students p] by auto
    then show "\<exists>k. first_minimum (pair_distance p) (pairs students) k \<and>
        m = match_object_optimized p (pairs students ! k) \<and>
        length p \<le> length (snd (pairs students ! k))"
      using long by blast
  next
    assume "length p < length d"
    then show "euclideanDistance p d = euclideanDistance p (take (length p) d)"
      "euclideanDistance_reduce p d = euclideanDistance_reduce p (take (length p) d)"
      by (simp_all add: euclideanDistance_reduce_eq euclideanDistance_take)
  qed
qed

text \<open>
  The witness is a mixed gallery: the first student holds a descriptor shorter than the
  probe, at the probe's own leading component, the second one a descriptor of the
  probe's length at distance 0.25. The second student is matched.
\<close>

theorem C2_mismatch_raises_nothing_witness:
  "euclideanDistance [1 / 4, 0] [1 / 4] = NaN \<and>
   bestMatch_of [example_student ''S1'' [[1 / 4]], example_student ''S2'' [[0, 0]]] [1 / 4, 0] =
     Some (match_object [1 / 4, 0] (example_student ''S2'' [[0, 0]], [0, 0])) \<and>
   (\<exists>k. first_minimum (pair_distance [1 / 4, 0])
          (pairs [example_student ''S1'' [[1 / 4]], example_student ''S2'' [[0, 0]]]) k \<and>
        match_object [1 / 4, 0] (example_student ''S2'' [[0, 0]], [0, 0]) =
        match_object [1 / 4, 0]
          (pairs [example_student ''S1'' [[1 / 4]], example_student ''S2'' [[0, 0]]] ! k) \<and>
        length [1 / 4, 0 :: real] \<le>
        length (snd (pairs [example_student ''S1'' [[1 / 4]], example_student ''S2'' [[0, 0]]] ! k))) \<and>
   recognize (Inr [example_student ''S1'' [[1 / 4]], example_student ''S2'' [[0, 0]]])
     \<lparr>detectedDescriptors = Some [[1 / 4, 0]]\<rparr> =
     Json200 [match_object [1 / 4, 0] (example_student ''S2'' [[0, 0]], [0, 0])] \<and>
   euclideanDistance [1 / 4] [0, 7] = euclideanDistance [1 / 4] [0]"
proof -
  let ?g = "[example_student ''S1'' [[1 / 4]], example_student ''S2'' [[0, 0]]]"
  let ?m = "match_object [1 / 4, 0] (example_student ''S2'' [[0, 0]], [0, 0])"
  note inst = C2_mismatch_raises_nothing [of ?g "[[1 / 4, 0]]" "[1 / 4]" "[1 / 4, 0]" ?g ?m]
  have e1: "to_double (1 / 4) = Fin (1 / 4)"
    using to_double_exact [of "1 / 4" 1 "- 2"] by (simp add: powr_neg_numeral)
  have e2: "to_double (1 / 16) = Fin (1 / 16)"
    using to_double_exact [of "1 / 16" 1 "- 4"] by (simp add: powr_neg_numeral)
  have n: "euclideanDistance [1 / 4, 0] [1 / 4] = NaN"
    using inst by simp
  have s: "rounded_sum_of_squares [1 / 4, 0] [0, 0] (length [1 / 4, 0 :: real]) = Fin (1 / 16)"
    using e1 e2 by (simp add: to_double_0 power_divide)
  have sq: "sqrt (1 / 16) = 1 / 4"
    by (rule real_sqrt_unique) (simp_all add: power_divide)
  have r: "num_sqrt (Fin (1 / 16)) = Fin (1 / 4)"
    using e1 by (simp add: sq)
  have "euclideanDistance [1 / 4, 0] [0, 0] =
      num_sqrt (rounded_sum_of_squares [1 / 4, 0] [0, 0] (length [1 / 4, 0 :: real]))"
    by (rule euclideanDistance_rounded) simp
  then have d: "euclideanDistance [1 / 4, 0] [0, 0] = Fin (1 / 4)"
    by (simp only: s r)
  have run: "bestMatch_of ?g [1 / 4, 0] = Some ?m"
    using n d by (simp add: scan_eval)
  have found: "find_with_descriptors ?g = ?g"
    by (simp add: find_with_descriptors_def example_student_def)
  have 1: "\<exists>k. first_minimum (pair_distance [1 / 4, 0]) (pairs ?g) k \<and>
        ?m = match_object [1 / 4, 0] (pairs ?g ! k) \<and>
        length [1 / 4, 0 :: real] \<le> length (snd (pairs ?g ! k))"
    using inst run by blast
  have 2: "recognize (Inr ?g) \<lparr>detectedDescriptors = Some [[1 / 4, 0]]\<rparr> = Json200 [?m]"
    using inst run by (simp add: found)
  have 3: "euclideanDistance [1 / 4] [0, 7] = euclideanDistance [1 / 4] [0]"
    using C2_mismatch_raises_nothing [of _ _ "[0, 7]" "[1 / 4]"] by simp
  show ?thesis using n run 1 2 3 by blast
qed

end
